theory Spec2Isabelle
  imports Complex_Main "HOL-Library.Multiset" "HOL-Library.Char_ord" "HOL-Library.List_Lexorder"
begin

section \<open>Data model (models.py)\<close>

text \<open>
  Python strings are sequences of code points. They are modelled as \<open>string\<close>, each
  \<open>char\<close> standing for the code point of the same number (U+0000 to U+00FF); code points
  above U+00FF are outside the model. Python compares strings lexicographically by code
  point, which is the order \<open>List_Lexorder\<close> gives \<open>char list\<close> over \<open>Char_ord\<close>.
  Python floats are modelled as \<open>real\<close>: prices are never NaN (clean_price returns a
  parsed number or 0.0), and rounding error is not modelled.
\<close>

text \<open>
  The dataclass \<open>Product\<close>; it is also the shape of one row of the DataFrame. The field
  \<open>image\<close> of the source is called \<open>image_src\<close> here.
\<close>

record Product =
  name :: string
  brand :: string
  weight :: string
  weight_clean :: string
  price :: string
  price_numeric :: real
  image_src :: string
  platform :: string

text \<open>
  The dataclass \<open>ProductMatch\<close>. Its fields \<open>brand\<close> and \<open>weight\<close> are called
  \<open>match_brand\<close> and \<open>match_weight\<close> here. \<open>similarity\<close> is annotated float in the source
  and holds the integer that \<open>calculate_similarity\<close> returns.
\<close>

record ProductMatch =
  product_name :: string
  match_brand :: string
  match_weight :: string
  platform1 :: string
  price1 :: real
  platform2 :: string
  price2 :: real
  price_diff :: real
  price_diff_pct :: real
  similarity :: int
  cheaper_platform :: string
  savings :: real

section \<open>Deal ranking: get_best_deals\<close>

text \<open>
  \<open>sorted(xs, key=f, reverse=True)\<close>: CPython reverses the list, sorts it with its stable
  ascending sort and reverses the result. \<open>sort_key\<close> is a stable ascending sort.
\<close>

definition sorted_reverse :: "('a \<Rightarrow> 'k::linorder) \<Rightarrow> 'a list \<Rightarrow> 'a list" where
  "sorted_reverse f xs = rev (sort_key f (rev xs))"

text \<open>
  The slice \<open>xs[:n]\<close> for a Python int \<open>n\<close>: a negative \<open>n\<close> counts from the end.
\<close>

definition slice_to :: "'a list \<Rightarrow> int \<Rightarrow> 'a list" where
  "slice_to xs n = (if 0 \<le> n then take (nat n) xs else take (length xs - nat (- n)) xs)"

definition get_best_deals :: "ProductMatch list \<Rightarrow> int \<Rightarrow> ProductMatch list" where
  "get_best_deals matches top_n =
     (let sorted_matches = sorted_reverse savings matches
      in slice_to sorted_matches top_n)"

subsection \<open>The same function over a store of list objects\<close>

text \<open>
  Python lists are mutable objects. The store maps the address of each list object to
  its contents; \<open>next_free\<close> is the first address never handed out. \<open>sorted\<close> and a
  slice each build a new list object and leave the one they read alone.
\<close>

type_synonym addr = nat

record store =
  cells :: "addr \<Rightarrow> ProductMatch list option"
  next_free :: addr

definition alloc :: "store \<Rightarrow> ProductMatch list \<Rightarrow> store \<times> addr" where
  "alloc h xs = (h\<lparr>cells := (cells h)(next_free h \<mapsto> xs), next_free := Suc (next_free h)\<rparr>, next_free h)"

definition sorted_st :: "store \<Rightarrow> addr \<Rightarrow> (store \<times> addr) option" where
  "sorted_st h a =
     (case cells h a of None \<Rightarrow> None
      | Some xs \<Rightarrow> Some (alloc h (sorted_reverse savings xs)))"

definition slice_to_st :: "store \<Rightarrow> addr \<Rightarrow> int \<Rightarrow> (store \<times> addr) option" where
  "slice_to_st h a n =
     (case cells h a of None \<Rightarrow> None
      | Some xs \<Rightarrow> Some (alloc h (slice_to xs n)))"

definition get_best_deals_st :: "store \<Rightarrow> addr \<Rightarrow> int \<Rightarrow> (store \<times> addr) option" where
  "get_best_deals_st h matches top_n =
     (case sorted_st h matches of None \<Rightarrow> None
      | Some (h1, sorted_matches) \<Rightarrow> slice_to_st h1 sorted_matches top_n)"

section \<open>Characters and strings (Python str, re)\<close>

text \<open>
  The classes of the code points U+0000 to U+00FF as Python 3 has them: \<open>is_space\<close>
  is \<open>str.isspace\<close>, which is also the regular expression class \<open>\s\<close> and what
  \<open>str.strip\<close> and \<open>str.split\<close> remove; \<open>is_digit\<close> is the class \<open>\d\<close>; \<open>is_word\<close> is
  the class \<open>\w\<close>, the alphanumeric code points and the underscore (code 95).
\<close>

definition is_space :: "char \<Rightarrow> bool" where
  "is_space c = (let n = (of_char c :: nat)
                 in (9 \<le> n \<and> n \<le> 13) \<or> (28 \<le> n \<and> n \<le> 32) \<or> n = 133 \<or> n = 160)"


definition is_alnum :: "char \<Rightarrow> bool" where
  "is_alnum c = (let n = (of_char c :: nat)
                 in (48 \<le> n \<and> n \<le> 57) \<or> (65 \<le> n \<and> n \<le> 90) \<or> (97 \<le> n \<and> n \<le> 122)
                    \<or> n = 170 \<or> n = 178 \<or> n = 179 \<or> n = 181 \<or> n = 185 \<or> n = 186
                    \<or> (188 \<le> n \<and> n \<le> 190) \<or> (192 \<le> n \<and> n \<le> 214)
                    \<or> (216 \<le> n \<and> n \<le> 246) \<or> (248 \<le> n \<and> n \<le> 255))"

definition is_word :: "char \<Rightarrow> bool" where
  "is_word c = (is_alnum c \<or> c = CHR ''_'')"

text \<open>\<open>str.lower\<close>: the upper-case letters of this range are 32 below their lower case.\<close>

definition lower_chr :: "char \<Rightarrow> char" where
  "lower_chr c = (let n = (of_char c :: nat)
                  in if (65 \<le> n \<and> n \<le> 90) \<or> (192 \<le> n \<and> n \<le> 214) \<or> (216 \<le> n \<and> n \<le> 222)
                     then char_of (n + 32) else c)"

definition str_lower :: "string \<Rightarrow> string" where
  "str_lower s = map lower_chr s"

text \<open>\<open>str.strip()\<close> removes the white space at both ends.\<close>

definition str_strip :: "string \<Rightarrow> string" where
  "str_strip s = rev (dropWhile is_space (rev (dropWhile is_space s)))"

text \<open>\<open>str.split()\<close>: the maximal runs of characters that are not white space.\<close>

function str_split :: "string \<Rightarrow> string list" where
  "str_split [] = []"
| "str_split (c # cs) =
     (if is_space c then str_split cs
      else (c # takeWhile (\<lambda>x. \<not> is_space x) cs) # str_split (dropWhile (\<lambda>x. \<not> is_space x) cs))"
  by pat_completeness auto
termination
  by (relation "measure length") (auto simp: less_Suc_eq_le length_dropWhile_le)

text \<open>\<open>" ".join(tokens)\<close>\<close>

fun join_space :: "string list \<Rightarrow> string" where
  "join_space [] = []"
| "join_space [t] = t"
| "join_space (t # ts) = t @ CHR '' '' # join_space ts"

text \<open>\<open>re.sub(r'[^\w\s]', '', s)\<close> deletes every character outside both classes.\<close>

definition sub_nonword_nonspace :: "string \<Rightarrow> string" where
  "sub_nonword_nonspace s = filter (\<lambda>c. is_word c \<or> is_space c) s"

text \<open>\<open>re.sub(r'\s+', ' ', s)\<close> replaces every maximal run of white space by one space.\<close>

function sub_spaces :: "string \<Rightarrow> string" where
  "sub_spaces [] = []"
| "sub_spaces (c # cs) =
     (if is_space c then CHR '' '' # sub_spaces (dropWhile is_space cs)
      else c # sub_spaces cs)"
  by pat_completeness auto
termination
  by (relation "measure length") (auto simp: less_Suc_eq_le length_dropWhile_le)

section \<open>Name normalisation (models.py, ProductMatcher.normalize_name)\<close>

definition normalize_name :: "string \<Rightarrow> string" where
  "normalize_name name0 =
     (let name1 = str_lower name0;
          name2 = sub_nonword_nonspace name1;
          name3 = sub_spaces name2
      in str_strip name3)"

text \<open>
  The reading of the specification: the lower-cased input without the characters that are
  neither word characters nor white space, cut into its words, the words joined by single
  spaces.
\<close>

definition normalize_name_spec :: "string \<Rightarrow> string" where
  "normalize_name_spec x =
     join_space (str_split (filter (\<lambda>c. is_word c \<or> is_space c) (map lower_chr x)))"

section \<open>Similarity score (models.py, ProductMatcher.calculate_similarity)\<close>

subsection \<open>The token-sort ratio of the fuzzywuzzy package\<close>

text \<open>
  Modelled from the spec: \<open>fuzz.token_sort_ratio\<close> belongs to the package fuzzywuzzy, which
  is not under src/. Section 4.2 describes it: each string is cut into tokens at white
  space, the tokens are sorted and joined again, and an edit-distance-based similarity
  ratio of the two joined strings is scaled to 0..100. The edit distance is the one of
  the package's Levenshtein backend, in which an insertion and a deletion cost 1 and a
  substitution costs 2.
\<close>

fun edit_distance :: "string \<Rightarrow> string \<Rightarrow> nat" where
  "edit_distance [] ys = length ys"
| "edit_distance (x # xs) [] = Suc (length xs)"
| "edit_distance (x # xs) (y # ys) =
     min (min (edit_distance xs (y # ys) + 1) (edit_distance (x # xs) ys + 1))
         (edit_distance xs ys + (if x = y then 0 else 2))"

text \<open>
  Modelled from the spec: Python's \<open>round\<close>, which the package uses to scale the ratio,
  rounds to the nearest integer and a tie to the even one.
\<close>

definition py_round :: "real \<Rightarrow> int" where
  "py_round x =
     (let f = \<lfloor>x\<rfloor>; r = x - of_int f
      in if r < 1 / 2 then f else if 1 / 2 < r then f + 1 else if even f then f else f + 1)"

text \<open>
  Modelled from the spec: \<open>fuzz.ratio\<close>, the similarity ratio scaled to 0..100: equal
  strings score 100, an empty string against a non-empty one scores 0, and otherwise the
  score is \<open>(lensum - distance) / lensum\<close> times 100, rounded.
\<close>

definition fuzz_ratio :: "string \<Rightarrow> string \<Rightarrow> int" where
  "fuzz_ratio s1 s2 =
     (if s1 = s2 then 100
      else if s1 = [] \<or> s2 = [] then 0
      else let lensum = length s1 + length s2
           in py_round (100 * (real (lensum - edit_distance s1 s2) / real lensum)))"

text \<open>
  Modelled from the spec: the package's preprocessing of each argument
  (\<open>utils.full_process\<close> with \<open>force_ascii\<close>): the code points 128 to 255 are deleted, every
  character outside \<open>\w\<close> becomes a space, the string is lower-cased and stripped.
\<close>

definition full_process :: "string \<Rightarrow> string" where
  "full_process s =
     (let s1 = filter (\<lambda>c. (of_char c :: nat) < 128) s;
          s2 = map (\<lambda>c. if is_word c then c else CHR '' '') s1;
          s3 = str_lower s2
      in str_strip s3)"

text \<open>
  Modelled from the spec: the tokens of the processed string, sorted and joined by single
  spaces.
\<close>

definition process_and_sort :: "string \<Rightarrow> string" where
  "process_and_sort s = str_strip (join_space (sort (str_split (full_process s))))"

text \<open>Modelled from the spec: \<open>fuzz.token_sort_ratio\<close>.\<close>

definition token_sort_ratio :: "string \<Rightarrow> string \<Rightarrow> int" where
  "token_sort_ratio s1 s2 = fuzz_ratio (process_and_sort s1) (process_and_sort s2)"

subsection \<open>calculate_similarity\<close>

text \<open>
  \<open>weight1 and weight2 and weight1 == weight2\<close>: a string is true when it is not empty.
\<close>

definition calculate_similarity :: "string \<Rightarrow> string \<Rightarrow> string \<Rightarrow> string \<Rightarrow> int" where
  "calculate_similarity name1 name2 weight1 weight2 =
     (let name_sim = token_sort_ratio (normalize_name name1) (normalize_name name2);
          weight_bonus = (if weight1 \<noteq> [] \<and> weight2 \<noteq> [] \<and> weight1 = weight2 then 20 else 0)
      in min 100 (name_sim + weight_bonus))"

section \<open>Data frames (pandas)\<close>

text \<open>
  pandas is not under src/. A DataFrame is modelled by its rows; the frame that
  \<open>pd.DataFrame\<close> builds from an empty list of records has no columns at all, and reading
  a column of it raises KeyError. A frame with columns and no rows is \<open>Frame []\<close>; it is
  what selecting rows of a frame gives when no row qualifies.
\<close>

datatype error = KeyError string

datatype dataframe = NoColumns | Frame "Product list"

definition pd_DataFrame :: "Product list \<Rightarrow> dataframe" where
  "pd_DataFrame records = (if records = [] then NoColumns else Frame records)"

text \<open>\<open>Series.unique()\<close>: the distinct values in order of first appearance.\<close>

definition unique :: "'a list \<Rightarrow> 'a list" where
  "unique xs = rev (remdups (rev xs))"

text \<open>\<open>Series.nunique()\<close>\<close>

definition nunique :: "'a list \<Rightarrow> nat" where
  "nunique xs = length (remdups xs)"

section \<open>Cross-platform matching (models.py, ProductMatcher.match_products)\<close>

text \<open>
  The body of the innermost loop: the list of the records it appends for one pair of
  rows (one record or none). The threshold is a float, the similarity an integer.
\<close>

definition match_pair :: "string \<Rightarrow> string \<Rightarrow> real \<Rightarrow> Product \<Rightarrow> Product \<Rightarrow> ProductMatch list" where
  "match_pair p1 p2 threshold row1 row2 =
     (let sim = calculate_similarity (name row1) (name row2) (weight_clean row1) (weight_clean row2)
      in if threshold \<le> real_of_int sim then
           (let diff = \<bar>price_numeric row1 - price_numeric row2\<bar>;
                max_price = max (price_numeric row1) (price_numeric row2);
                diff_pct = (if 0 < max_price then diff / max_price * 100 else 0);
                cheaper = (if price_numeric row1 < price_numeric row2 then p1 else p2);
                sav = diff
            in [\<lparr>product_name = name row1,
                 match_brand = brand row1,
                 match_weight = weight_clean row1,
                 platform1 = p1,
                 price1 = price_numeric row1,
                 platform2 = p2,
                 price2 = price_numeric row2,
                 price_diff = diff,
                 price_diff_pct = diff_pct,
                 similarity = sim,
                 cheaper_platform = cheaper,
                 savings = sav\<rparr>])
         else [])"

text \<open>
  The four nested loops, each a \<open>concat (map \<dots>)\<close> in the order of iteration:
  \<open>p1 \<ge> p2\<close> is the test of the \<open>continue\<close>.
\<close>

definition match_products :: "dataframe \<Rightarrow> real \<Rightarrow> error + ProductMatch list" where
  "match_products df threshold =
     (case df of
        NoColumns \<Rightarrow> Inl (KeyError ''platform'')
      | Frame rows \<Rightarrow>
          (let platforms = unique (map platform rows)
           in if length platforms < 2 then Inr []
              else Inr (concat (map (\<lambda>p1.
                     let df1 = filter (\<lambda>r. platform r = p1) rows
                     in concat (map (\<lambda>p2.
                          if p1 \<ge> p2 then []
                          else let df2 = filter (\<lambda>r. platform r = p2) rows
                               in concat (map (\<lambda>row1.
                                    concat (map (\<lambda>row2. match_pair p1 p2 threshold row1 row2) df2))
                                  df1))
                        platforms))
                   platforms))))"

section \<open>Overall statistics (utils.py, PriceAnalyzer.calculate_statistics)\<close>

text \<open>
  Modelled from the spec: the aggregates of a pandas Series of prices (section 4.5).
  A float result is \<open>real option\<close>, \<open>None\<close> standing for NaN, the value pandas returns
  when the aggregate is not defined: every aggregate of an empty Series, and the sample
  standard deviation (N - 1 in the denominator) of fewer than two values.
\<close>

definition series_mean :: "real list \<Rightarrow> real option" where
  "series_mean xs = (if xs = [] then None else Some (sum_list xs / real (length xs)))"

definition series_median :: "real list \<Rightarrow> real option" where
  "series_median xs =
     (if xs = [] then None
      else let s = sort xs; n = length xs
           in if odd n then Some (s ! (n div 2))
              else Some ((s ! (n div 2 - 1) + s ! (n div 2)) / 2))"

definition series_min :: "real list \<Rightarrow> real option" where
  "series_min xs = (case xs of [] \<Rightarrow> None | x # ys \<Rightarrow> Some (fold min ys x))"

definition series_max :: "real list \<Rightarrow> real option" where
  "series_max xs = (case xs of [] \<Rightarrow> None | x # ys \<Rightarrow> Some (fold max ys x))"

definition series_std :: "real list \<Rightarrow> real option" where
  "series_std xs =
     (if length xs < 2 then None
      else let m = sum_list xs / real (length xs)
           in Some (sqrt (sum_list (map (\<lambda>x. (x - m) ^ 2) xs) / real (length xs - 1))))"

record statistics =
  total_products :: nat
  total_platforms :: nat
  total_brands :: nat
  avg_price :: "real option"
  median_price :: "real option"
  min_price :: "real option"
  max_price :: "real option"
  price_std :: "real option"

text \<open>
  The dictionary is built entry by entry: \<open>len(df)\<close> works on every frame, and
  \<open>df['platform']\<close> is the first column read.
\<close>

definition calculate_statistics :: "dataframe \<Rightarrow> error + statistics" where
  "calculate_statistics df =
     (case df of
        NoColumns \<Rightarrow> Inl (KeyError ''platform'')
      | Frame rows \<Rightarrow>
          Inr \<lparr>total_products = length rows,
               total_platforms = nunique (map platform rows),
               total_brands = nunique (map brand rows),
               avg_price = series_mean (map price_numeric rows),
               median_price = series_median (map price_numeric rows),
               min_price = series_min (map price_numeric rows),
               max_price = series_max (map price_numeric rows),
               price_std = series_std (map price_numeric rows)\<rparr>)"

section \<open>Weight normalisation (scraping/zepto.py, ZeptoScraper.clean_weight)\<close>









section \<open>Example records\<close>

definition deal_low :: ProductMatch where
  "deal_low = \<lparr>product_name = ''x'', match_brand = ''b'', match_weight = ''1g'',
          platform1 = ''A'', price1 = 2, platform2 = ''B'', price2 = 1, price_diff = 1,
          price_diff_pct = 50, similarity = 100, cheaper_platform = ''B'', savings = 1\<rparr>"

definition deal_high :: ProductMatch where
  "deal_high = \<lparr>product_name = ''y'', match_brand = ''b'', match_weight = ''1g'',
          platform1 = ''A'', price1 = 4, platform2 = ''B'', price2 = 1, price_diff = 3,
          price_diff_pct = 75, similarity = 100, cheaper_platform = ''B'', savings = 3\<rparr>"

text \<open>Stripping at the right end only, the second half of \<open>str_strip\<close>.\<close>

definition rstrip :: "string \<Rightarrow> string" where
  "rstrip s = rev (dropWhile is_space (rev s))"

definition loaf_a :: Product where
  "loaf_a = \<lparr>name = ''White Bread'', brand = ''Modern'', weight = ''400 g'', weight_clean = ''400g'',
             price = ''Rs 40'', price_numeric = 40, image_src = [], platform = ''A''\<rparr>"

definition loaf_b :: Product where
  "loaf_b = \<lparr>name = ''White Bread'', brand = ''Modern'', weight = ''400 g'', weight_clean = ''400g'',
             price = ''Rs 40'', price_numeric = 40, image_src = [], platform = ''B''\<rparr>"

definition loaf_match :: ProductMatch where
  "loaf_match = \<lparr>product_name = ''White Bread'', match_brand = ''Modern'', match_weight = ''400g'',
                 platform1 = ''A'', price1 = 40, platform2 = ''B'', price2 = 40, price_diff = 0,
                 price_diff_pct = 0, similarity = 100, cheaper_platform = ''B'', savings = 0\<rparr>"

section \<open>Properties of the deal ranking\<close>

lemma mset_sorted_reverse: "mset (sorted_reverse f xs) = mset xs"
  by (simp add: sorted_reverse_def)

lemma sorted_reverse_descending:
  "sorted_wrt (\<lambda>a b. f b \<le> f a) (sorted_reverse f xs)"
proof -
  have "sorted (map f (sort_key f (rev xs)))"
    by (rule sorted_sort_key)
  then have "sorted_wrt (\<lambda>a b. f a \<le> f b) (sort_key f (rev xs))"
    by (simp add: sorted_wrt_map)
  then show ?thesis
    by (simp add: sorted_reverse_def sorted_wrt_rev)
qed

lemma sorted_reverse_stable:
  "filter (\<lambda>x. f x = k) (sorted_reverse f xs) = filter (\<lambda>x. f x = k) xs"
proof -
  have "filter (\<lambda>x. f x = k) (sorted_reverse f xs)
      = rev (filter (\<lambda>x. f x = k) (sort_key f (rev xs)))"
    by (simp add: sorted_reverse_def rev_filter)
  also have "\<dots> = rev (filter (\<lambda>x. f x = k) (rev xs))"
    by (simp only: sort_key_stable)
  also have "\<dots> = filter (\<lambda>x. f x = k) xs"
    by (simp add: rev_filter)
  finally show ?thesis .
qed

lemma length_sorted_reverse: "length (sorted_reverse f xs) = length xs"
  by (simp add: sorted_reverse_def)

text \<open>
  C8: for every list of matches and every count \<open>top_n\<close> (a number of records, so not
  negative), get_best_deals returns at most \<open>top_n\<close> records, all of them when the input
  has fewer: the first \<open>top_n\<close> records of the list \<open>S\<close> that holds the same records as the
  input, sorted by savings in descending order, records of equal savings in their order
  in the input (a stable sort).
\<close>

theorem get_best_deals_sorted_stable_top_n:
  "\<exists>S. mset S = mset matches
     \<and> sorted_wrt (\<lambda>a b. savings b \<le> savings a) S
     \<and> (\<forall>k. filter (\<lambda>m. savings m = k) S = filter (\<lambda>m. savings m = k) matches)
     \<and> get_best_deals matches top_n = slice_to S top_n
     \<and> (0 \<le> top_n \<longrightarrow>
          get_best_deals matches top_n = take (nat top_n) S
        \<and> length (get_best_deals matches top_n) = min (nat top_n) (length matches)
        \<and> int (length (get_best_deals matches top_n)) \<le> top_n)"
proof (intro exI conjI allI impI)
  show "mset (sorted_reverse savings matches) = mset matches"
    by (rule mset_sorted_reverse)
  show "sorted_wrt (\<lambda>a b. savings b \<le> savings a) (sorted_reverse savings matches)"
    by (rule sorted_reverse_descending)
  show "filter (\<lambda>m. savings m = k) (sorted_reverse savings matches)
      = filter (\<lambda>m. savings m = k) matches" for k
    by (rule sorted_reverse_stable)
  show "get_best_deals matches top_n = slice_to (sorted_reverse savings matches) top_n"
    by (simp add: get_best_deals_def)
  show "get_best_deals matches top_n = take (nat top_n) (sorted_reverse savings matches)"
    if "0 \<le> top_n"
    using that by (simp add: get_best_deals_def slice_to_def)
  show "length (get_best_deals matches top_n) = min (nat top_n) (length matches)"
    if "0 \<le> top_n"
    using that by (simp add: get_best_deals_def slice_to_def length_sorted_reverse min.commute)
  show "int (length (get_best_deals matches top_n)) \<le> top_n" if "0 \<le> top_n"
    using that by (simp add: get_best_deals_def slice_to_def length_sorted_reverse)
qed

theorem get_best_deals_sorted_stable_top_n_witness:
  "(0::int) \<le> 1 \<and> int (length (get_best_deals [deal_low, deal_high] 1)) \<le> 1
   \<and> (\<exists>S. mset S = mset [deal_low, deal_high]
          \<and> get_best_deals [deal_low, deal_high] 1 = take (nat 1) S)"
  using get_best_deals_sorted_stable_top_n [of "[deal_low, deal_high]" 1]
  by auto

text \<open>
  C10: get_best_deals does not mutate its input. Over the store of list objects, a call
  on the address of an allocated list returns the address of another list object, which
  holds the result; the list at the argument's address, and every other list that was
  allocated before the call, holds what it held before.
\<close>

theorem get_best_deals_st_keeps_input:
  assumes "cells h a = Some ms" and "a < next_free h"
  shows "\<exists>h' r. get_best_deals_st h a top_n = Some (h', r)
           \<and> cells h' a = Some ms
           \<and> r \<noteq> a
           \<and> cells h' r = Some (get_best_deals ms top_n)
           \<and> (\<forall>b. b < next_free h \<longrightarrow> cells h' b = cells h b)"
  using assms
  by (simp add: get_best_deals_st_def sorted_st_def slice_to_st_def alloc_def get_best_deals_def)

theorem get_best_deals_st_keeps_input_witness:
  "cells \<lparr>cells = [0 \<mapsto> [deal_low, deal_high]], next_free = 1\<rparr> 0 = Some [deal_low, deal_high]
   \<and> (0::nat) < next_free \<lparr>cells = [0 \<mapsto> [deal_low, deal_high]], next_free = 1\<rparr>
   \<and> (\<exists>h' r. get_best_deals_st \<lparr>cells = [0 \<mapsto> [deal_low, deal_high]], next_free = 1\<rparr> 0 1 = Some (h', r)
           \<and> cells h' 0 = Some [deal_low, deal_high]
           \<and> r \<noteq> 0
           \<and> cells h' r = Some [deal_high])"
proof -
  let ?h = "\<lparr>cells = [0 \<mapsto> [deal_low, deal_high]], next_free = 1\<rparr>"
  have c: "cells ?h 0 = Some [deal_low, deal_high]" by simp
  have n: "(0::nat) < next_free ?h" by simp
  have g: "get_best_deals [deal_low, deal_high] 1 = [deal_high]"
    by (simp add: get_best_deals_def sorted_reverse_def slice_to_def deal_low_def deal_high_def)
  from get_best_deals_st_keeps_input [OF c n, of 1] g c n show ?thesis
    by auto
qed

section \<open>Properties of normalize_name\<close>

lemma is_space_blank: "is_space (CHR '' '')"
  by (simp add: is_space_def)

lemma lower_chr_idem: "lower_chr (lower_chr c) = lower_chr c"
  unfolding lower_chr_def Let_def of_char_of
  by (simp split: if_splits)

lemma lower_chr_blank: "lower_chr (CHR '' '') = CHR '' ''"
  by (simp add: lower_chr_def)

lemma word_not_space: "is_word c \<Longrightarrow> \<not> is_space c"
proof -
  assume w: "is_word c"
  show ?thesis
  proof (cases "c = CHR ''_''")
    case True
    then show ?thesis by (simp add: is_space_def)
  next
    case False
    with w have "is_alnum c" by (simp add: is_word_def)
    then show ?thesis
      unfolding is_alnum_def is_space_def Let_def by arith
  qed
qed

lemma rstrip_Nil: "rstrip [] = []"
  by (simp add: rstrip_def)

lemma rstrip_append:
  "rstrip (a @ b) = (if rstrip b = [] then rstrip a else a @ rstrip b)"
  by (auto simp: rstrip_def dropWhile_append)

lemma rstrip_no_space: "\<forall>c\<in>set s. \<not> is_space c \<Longrightarrow> rstrip s = s"
  by (cases s rule: rev_cases) (auto simp: rstrip_def)

lemma rstrip_blank_cons:
  "rstrip (CHR '' '' # s) = (if rstrip s = [] then [] else CHR '' '' # rstrip s)"
  using rstrip_append [of "[CHR '' '']" s]
  by (simp add: rstrip_def is_space_blank)

lemma str_split_dropWhile: "str_split (dropWhile is_space s) = str_split s"
  by (induction s) auto

lemma str_split_tokens:
  "t \<in> set (str_split s) \<Longrightarrow> t \<noteq> [] \<and> (\<forall>c\<in>set t. \<not> is_space c) \<and> set t \<subseteq> set s"
proof (induction s arbitrary: t rule: length_induct)
  case (1 s)
  show ?case
  proof (cases s)
    case Nil
    with 1 show ?thesis by simp
  next
    case (Cons c cs)
    show ?thesis
    proof (cases "is_space c")
      case True
      then have "t \<in> set (str_split cs)" using 1(2) Cons by simp
      moreover have "length cs < length s" using Cons by simp
      ultimately have "t \<noteq> [] \<and> (\<forall>c\<in>set t. \<not> is_space c) \<and> set t \<subseteq> set cs"
        using 1(1) by blast
      then show ?thesis using Cons by auto
    next
      case False
      let ?w = "takeWhile (\<lambda>x. \<not> is_space x) cs"
      let ?r = "dropWhile (\<lambda>x. \<not> is_space x) cs"
      from False 1(2) Cons have "t = c # ?w \<or> t \<in> set (str_split ?r)" by simp
      then show ?thesis
      proof
        assume t: "t = c # ?w"
        have "\<forall>x\<in>set ?w. \<not> is_space x" by (auto dest: set_takeWhileD)
        moreover have "set ?w \<subseteq> set cs" by (auto dest: set_takeWhileD)
        ultimately show ?thesis using t False Cons by auto
      next
        assume t: "t \<in> set (str_split ?r)"
        have "length ?r < length s" using Cons by (simp add: less_Suc_eq_le length_dropWhile_le)
        with t 1(1) have "t \<noteq> [] \<and> (\<forall>c\<in>set t. \<not> is_space c) \<and> set t \<subseteq> set ?r"
          by blast
        moreover have "set ?r \<subseteq> set cs" by (auto dest: set_dropWhileD)
        ultimately show ?thesis using Cons by auto
      qed
    qed
  qed
qed

lemma join_space_Nil_iff: "\<forall>t\<in>set ts. t \<noteq> [] \<Longrightarrow> join_space ts = [] \<longleftrightarrow> ts = []"
  by (induction ts rule: join_space.induct) auto

lemma join_space_Cons: "ts \<noteq> [] \<Longrightarrow> join_space (t # ts) = t @ CHR '' '' # join_space ts"
  by (cases ts) auto

lemma sub_spaces_no_space:
  "\<forall>c\<in>set w. \<not> is_space c \<Longrightarrow> sub_spaces (w @ r) = w @ sub_spaces r"
  by (induction w) auto

lemma sub_spaces_rstrip:
  "rstrip (sub_spaces s) =
     (if str_split s = [] then []
      else (if s \<noteq> [] \<and> is_space (hd s) then [CHR '' ''] else []) @ join_space (str_split s))"
proof (induction s rule: length_induct)
  case (1 s)
  show ?case
  proof (cases s)
    case Nil
    then show ?thesis by (simp add: rstrip_def)
  next
    case (Cons c cs)
    show ?thesis
    proof (cases "is_space c")
      case True
      let ?D = "dropWhile is_space cs"
      have len: "length ?D < length s"
        using Cons by (simp add: less_Suc_eq_le length_dropWhile_le)
      have nl: "\<not> (?D \<noteq> [] \<and> is_space (hd ?D))"
        using hd_dropWhile [of is_space cs] by auto
      have ih: "rstrip (sub_spaces ?D) = (if str_split ?D = [] then [] else join_space (str_split ?D))"
        using 1 len nl by auto
      have sp: "str_split s = str_split ?D"
        using Cons True by (simp add: str_split_dropWhile)
      have ne: "str_split ?D \<noteq> [] \<Longrightarrow> join_space (str_split ?D) \<noteq> []"
        using join_space_Nil_iff [of "str_split ?D"] str_split_tokens by blast
      show ?thesis
        using Cons True ih sp ne by (auto simp: rstrip_blank_cons)
    next
      case False
      let ?w = "takeWhile (\<lambda>x. \<not> is_space x) cs"
      let ?r = "dropWhile (\<lambda>x. \<not> is_space x) cs"
      have len: "length ?r < length s"
        using Cons by (simp add: less_Suc_eq_le length_dropWhile_le)
      have ih: "rstrip (sub_spaces ?r) =
         (if str_split ?r = [] then []
          else (if ?r \<noteq> [] \<and> is_space (hd ?r) then [CHR '' ''] else []) @ join_space (str_split ?r))"
        using 1 len by blast
      have lead: "?r \<noteq> [] \<Longrightarrow> is_space (hd ?r)"
        using hd_dropWhile [of "\<lambda>x. \<not> is_space x" cs] by auto
      have w: "\<forall>x\<in>set (c # ?w). \<not> is_space x"
        using False by (auto dest: set_takeWhileD)
      have "sub_spaces s = (c # ?w) @ sub_spaces ?r"
        using sub_spaces_no_space [OF w, of ?r] Cons by simp
      then have lhs: "rstrip (sub_spaces s) =
          (if rstrip (sub_spaces ?r) = [] then c # ?w else (c # ?w) @ rstrip (sub_spaces ?r))"
        using rstrip_no_space [OF w] by (simp only: rstrip_append) 
      have sp: "str_split s = (c # ?w) # str_split ?r"
        using Cons False by simp
      have r_ne: "?r \<noteq> []" if "str_split ?r \<noteq> []"
      proof
        assume "?r = []"
        then have "str_split ?r = []" by (simp only: str_split.simps)
        with that show False by blast
      qed
      show ?thesis
      proof (cases "str_split ?r = []")
        case True
        then show ?thesis using lhs ih sp Cons False by simp
      next
        case F: False
        then have "rstrip (sub_spaces ?r) = CHR '' '' # join_space (str_split ?r)"
          using ih lead r_ne by simp
        then show ?thesis
          using lhs sp Cons False F by (simp add: join_space_Cons)
      qed
    qed
  qed
qed

lemma sub_spaces_hd: "s \<noteq> [] \<Longrightarrow> \<not> is_space (hd s) \<Longrightarrow> sub_spaces s \<noteq> [] \<and> hd (sub_spaces s) = hd s"
  by (cases s) auto

lemma dropWhile_sub_spaces:
  "dropWhile is_space (sub_spaces s) = sub_spaces (dropWhile is_space s)"
proof (cases s)
  case Nil
  then show ?thesis by simp
next
  case (Cons c cs)
  show ?thesis
  proof (cases "is_space c")
    case True
    let ?D = "dropWhile is_space cs"
    have "dropWhile is_space (sub_spaces ?D) = sub_spaces ?D"
    proof (cases "?D = []")
      case True
      show ?thesis by (simp only: True sub_spaces.simps dropWhile.simps)
    next
      case False
      then have "\<not> is_space (hd ?D)" using hd_dropWhile [of is_space cs] by auto
      with False sub_spaces_hd [of ?D] show ?thesis
        by (cases "sub_spaces ?D") auto
    qed
    then show ?thesis using Cons True by (simp add: is_space_blank)
  next
    case False
    then show ?thesis using Cons by simp
  qed
qed

lemma strip_sub_spaces: "str_strip (sub_spaces s) = join_space (str_split s)"
proof -
  let ?D = "dropWhile is_space s"
  have nl: "\<not> (?D \<noteq> [] \<and> is_space (hd ?D))"
    using hd_dropWhile [of is_space s] by auto
  have "str_strip (sub_spaces s) = rstrip (sub_spaces ?D)"
    by (simp add: str_strip_def rstrip_def dropWhile_sub_spaces)
  also have "\<dots> = join_space (str_split ?D)"
    using nl by (auto simp: sub_spaces_rstrip)
  finally show ?thesis by (simp add: str_split_dropWhile)
qed

lemma normalize_name_refines: "normalize_name x = normalize_name_spec x"
  by (simp add: normalize_name_def normalize_name_spec_def Let_def str_lower_def
      sub_nonword_nonspace_def strip_sub_spaces)


lemma set_join_space: "set (join_space ts) \<subseteq> (\<Union>t\<in>set ts. set t) \<union> {CHR '' ''}"
  by (induction ts rule: join_space.induct) auto

lemma str_split_token_append:
  assumes "t \<noteq> []" and "\<forall>c\<in>set t. \<not> is_space c"
  shows "str_split (t @ CHR '' '' # r) = t # str_split r"
proof -
  obtain c w where t: "t = c # w" using assms(1) by (cases t) auto
  have w: "\<And>x. x \<in> set w \<Longrightarrow> \<not> is_space x" and c: "\<not> is_space c"
    using assms(2) t by auto
  have tw: "takeWhile (\<lambda>x. \<not> is_space x) (w @ CHR '' '' # r) = w"
    using w by (simp add: takeWhile_append2 is_space_blank)
  have dw: "dropWhile (\<lambda>x. \<not> is_space x) (w @ CHR '' '' # r) = CHR '' '' # r"
    using w by (simp add: dropWhile_append2 is_space_blank)
  show ?thesis
    using c by (simp add: t tw dw is_space_blank)
qed

lemma str_split_token:
  assumes "t \<noteq> []" and "\<forall>c\<in>set t. \<not> is_space c"
  shows "str_split t = [t]"
proof -
  obtain c w where t: "t = c # w" using assms(1) by (cases t) auto
  have w: "\<And>x. x \<in> set w \<Longrightarrow> \<not> is_space x" and c: "\<not> is_space c"
    using assms(2) t by auto
  have tw: "takeWhile (\<lambda>x. \<not> is_space x) w = w"
    using w by (simp add: takeWhile_eq_all_conv)
  have dw: "dropWhile (\<lambda>x. \<not> is_space x) w = []"
    using w by simp
  show ?thesis
    using c by (simp add: t tw dw)
qed

lemma str_split_join_space:
  "\<forall>t\<in>set ts. t \<noteq> [] \<and> (\<forall>c\<in>set t. \<not> is_space c) \<Longrightarrow> str_split (join_space ts) = ts"
proof (induction ts rule: join_space.induct)
  case 1
  then show ?case by simp
next
  case (2 t)
  then show ?case by (simp add: str_split_token)
next
  case (3 t u us)
  then have "str_split (join_space (u # us)) = u # us" by simp
  moreover have "t \<noteq> []" and "\<forall>c\<in>set t. \<not> is_space c" using 3(2) by auto
  ultimately show ?case
    using str_split_token_append [of t "join_space (u # us)"] by simp
qed

text \<open>
  C4, as the claim states it, fails: the class \<open>\w\<close> of the pattern \<open>[^\w\s]\<close> holds the
  underscore, so an underscore is neither alphanumeric nor white space and still
  survives.
\<close>

theorem normalize_name_keeps_underscore_counterexample:
  "normalize_name ''a_b'' = ''a_b''
   \<and> CHR ''_'' \<in> set (normalize_name ''a_b'')
   \<and> \<not> is_alnum (CHR ''_'') \<and> \<not> is_space (CHR ''_'')"
  by (simp add: normalize_name_def str_lower_def sub_nonword_nonspace_def str_strip_def
      lower_chr_def is_word_def is_alnum_def is_space_def)

lemma kept_tokens:
  assumes "t \<in> set (str_split (filter (\<lambda>c. is_word c \<or> is_space c) s))"
  shows "t \<noteq> [] \<and> (\<forall>c\<in>set t. \<not> is_space c) \<and> (\<forall>c\<in>set t. is_word c) \<and> set t \<subseteq> set s"
proof -
  from str_split_tokens [OF assms]
  have a: "t \<noteq> []" and b: "\<forall>c\<in>set t. \<not> is_space c"
    and c: "set t \<subseteq> set (filter (\<lambda>c. is_word c \<or> is_space c) s)"
    by auto
  from b c have "\<forall>c\<in>set t. is_word c" by auto
  with a b c show ?thesis by auto
qed

text \<open>
  C4 (amended): for every input string, normalize_name returns the input lower-cased,
  with every character removed that is neither a word character (alphanumeric or
  underscore) nor white space, cut into its maximal runs without white space, and these
  words joined by single spaces. Every word is non-empty and made of word characters, so
  every character of the output is a word character or the space that separates two
  words, and no white space is left at either end.
\<close>

theorem normalize_name_words_joined:
  "normalize_name x = normalize_name_spec x
   \<and> (\<forall>t\<in>set (str_split (filter (\<lambda>c. is_word c \<or> is_space c) (map lower_chr x))).
         t \<noteq> [] \<and> (\<forall>c\<in>set t. is_word c))
   \<and> (\<forall>c\<in>set (normalize_name x). is_word c \<or> c = CHR '' '')"
proof (intro conjI ballI)
  let ?F = "filter (\<lambda>c. is_word c \<or> is_space c) (map lower_chr x)"
  show r: "normalize_name x = normalize_name_spec x"
    by (rule normalize_name_refines)
  show "t \<noteq> []" if "t \<in> set (str_split ?F)" for t
    using kept_tokens [OF that] by blast
  show "is_word c" if "t \<in> set (str_split ?F)" and "c \<in> set t" for t c
    using kept_tokens [OF that(1)] that(2) by blast
  show "is_word c \<or> c = CHR '' ''" if "c \<in> set (normalize_name x)" for c
  proof -
    from that have "c \<in> set (join_space (str_split ?F))"
      by (simp add: r normalize_name_spec_def)
    then have "c = CHR '' '' \<or> (\<exists>t\<in>set (str_split ?F). c \<in> set t)"
      using set_join_space [of "str_split ?F"] by auto
    then show ?thesis using kept_tokens by blast
  qed
qed

theorem normalize_name_words_joined_witness:
  "normalize_name ''  Hovis_Best   Bread! '' = normalize_name_spec ''  Hovis_Best   Bread! ''
   \<and> normalize_name ''  Hovis_Best   Bread! '' = ''hovis_best bread''
   \<and> CHR ''_'' \<in> set (normalize_name ''  Hovis_Best   Bread! '')
   \<and> (is_word (CHR ''_'') \<or> CHR ''_'' = CHR '' '')"
proof -
  have e: "normalize_name_spec ''  Hovis_Best   Bread! '' = ''hovis_best bread''"
    by code_simp
  note w = normalize_name_words_joined [of "''  Hovis_Best   Bread! ''"]
  have a: "normalize_name ''  Hovis_Best   Bread! '' = normalize_name_spec ''  Hovis_Best   Bread! ''"
    by (rule w [THEN conjunct1])
  have c: "\<forall>c\<in>set (normalize_name ''  Hovis_Best   Bread! ''). is_word c \<or> c = CHR '' ''"
    by (rule w [THEN conjunct2, THEN conjunct2])
  have b: "normalize_name ''  Hovis_Best   Bread! '' = ''hovis_best bread''"
    by (simp only: a e)
  have m: "CHR ''_'' \<in> set (normalize_name ''  Hovis_Best   Bread! '')"
    by (simp add: b)
  have d: "is_word (CHR ''_'') \<or> CHR ''_'' = CHR '' ''"
    by (rule c [THEN bspec, OF m])
  show ?thesis
    by (intro conjI) (rule a, rule b, rule m, rule d)
qed

text \<open>
  C9: normalize_name is idempotent.
\<close>

theorem normalize_name_idempotent:
  "normalize_name (normalize_name x) = normalize_name x"
proof -
  let ?F = "filter (\<lambda>c. is_word c \<or> is_space c) (map lower_chr x)"
  let ?ts = "str_split ?F"
  let ?y = "join_space ?ts"
  have y: "normalize_name x = ?y"
    by (simp add: normalize_name_refines normalize_name_spec_def)
  have chars: "c = CHR '' '' \<or> (is_word c \<and> c \<in> lower_chr ` set x)" if "c \<in> set ?y" for c
  proof -
    from that have "c = CHR '' '' \<or> (\<exists>t\<in>set ?ts. c \<in> set t)"
      using set_join_space [of ?ts] by auto
    then show ?thesis
    proof
      assume "c = CHR '' ''" then show ?thesis by simp
    next
      assume "\<exists>t\<in>set ?ts. c \<in> set t"
      then obtain t where t: "t \<in> set ?ts" and c: "c \<in> set t" by blast
      from kept_tokens [OF t] c have "is_word c" and "c \<in> set (map lower_chr x)" by auto
      then show ?thesis by auto
    qed
  qed
  have low: "map lower_chr ?y = ?y"
  proof (rule map_idI)
    fix c assume "c \<in> set ?y"
    from chars [OF this] show "lower_chr c = c"
      by (auto simp: lower_chr_blank lower_chr_idem)
  qed
  have keep: "filter (\<lambda>c. is_word c \<or> is_space c) ?y = ?y"
  proof -
    have "\<forall>c\<in>set ?y. is_word c \<or> is_space c"
      using chars is_space_blank by blast
    then show ?thesis by (simp only: filter_id_conv)
  qed
  have toks: "\<forall>t\<in>set ?ts. t \<noteq> [] \<and> (\<forall>c\<in>set t. \<not> is_space c)"
    using kept_tokens by blast
  have "normalize_name ?y = join_space (str_split (filter (\<lambda>c. is_word c \<or> is_space c) (map lower_chr ?y)))"
    by (simp only: normalize_name_refines normalize_name_spec_def)
  also have "\<dots> = join_space (str_split ?y)"
    by (simp only: low keep)
  also have "\<dots> = ?y"
    by (simp only: str_split_join_space [OF toks])
  finally show ?thesis by (simp only: y)
qed

section \<open>Properties of calculate_similarity\<close>

lemma py_round_nonneg: "0 \<le> x \<Longrightarrow> 0 \<le> py_round x"
  by (auto simp: py_round_def Let_def)

lemma py_round_le: "x \<le> of_int n \<Longrightarrow> py_round x \<le> n"
proof -
  assume a: "x \<le> of_int n"
  then have f: "\<lfloor>x\<rfloor> \<le> n" by (simp add: floor_le_iff)
  show ?thesis
  proof (cases "\<lfloor>x\<rfloor> = n")
    case True
    with a have "x - of_int \<lfloor>x\<rfloor> \<le> 0" by simp
    then show ?thesis using True by (simp add: py_round_def Let_def)
  next
    case False
    with f have "\<lfloor>x\<rfloor> + 1 \<le> n" by simp
    then show ?thesis by (auto simp: py_round_def Let_def)
  qed
qed

lemma fuzz_ratio_range: "0 \<le> fuzz_ratio s1 s2 \<and> fuzz_ratio s1 s2 \<le> 100"
proof -
  let ?n = "length s1 + length s2"
  let ?q = "100 * (real (?n - edit_distance s1 s2) / real ?n)"
  have q0: "0 \<le> ?q" by simp
  have le: "real (?n - edit_distance s1 s2) \<le> real ?n"
    by (simp only: of_nat_le_iff diff_le_self)
  have "real (?n - edit_distance s1 s2) / real ?n \<le> 1"
  proof (cases "?n = 0")
    case True
    then show ?thesis by simp
  next
    case False
    then have "0 < ?n" using neq0_conv by blast
    then have "0 < real ?n" by (simp only: of_nat_0_less_iff)
    then show ?thesis using le by (simp only: divide_le_eq_1_pos)
  qed
  then have q1: "?q \<le> of_int 100" by simp
  have "0 \<le> py_round ?q" using q0 by (rule py_round_nonneg)
  moreover have "py_round ?q \<le> 100" using q1 by (rule py_round_le)
  ultimately show ?thesis
    by (simp add: fuzz_ratio_def Let_def)
qed

text \<open>
  C6: for every pair of names and every pair of weight strings, calculate_similarity
  returns a value between 0 and 100, with or without the bonus of 20.
\<close>

theorem calculate_similarity_range:
  "0 \<le> calculate_similarity name1 name2 weight1 weight2
   \<and> calculate_similarity name1 name2 weight1 weight2 \<le> 100"
proof -
  have "0 \<le> token_sort_ratio (normalize_name name1) (normalize_name name2)"
    using fuzz_ratio_range by (simp add: token_sort_ratio_def)
  then show ?thesis
    by (simp add: calculate_similarity_def Let_def)
qed

section \<open>Properties of match_products\<close>

lemma match_pair_props:
  "m \<in> set (match_pair p1 p2 thr r1 r2) \<Longrightarrow>
     platform1 m = p1 \<and> platform2 m = p2
     \<and> price1 m = price_numeric r1 \<and> price2 m = price_numeric r2
     \<and> savings m = price_diff m
     \<and> thr \<le> real_of_int (similarity m)
     \<and> cheaper_platform m = (if price_numeric r1 < price_numeric r2 then p1 else p2)"
  by (auto simp: match_pair_def Let_def split: if_splits)

lemma match_products_member:
  assumes "match_products df thr = Inr ms" and "m \<in> set ms"
  shows "\<exists>p1 p2 r1 r2. p1 < p2 \<and> m \<in> set (match_pair p1 p2 thr r1 r2)"
proof (cases df)
  case NoColumns
  with assms show ?thesis by (simp add: match_products_def)
next
  case (Frame rows)
  show ?thesis
  proof (cases "length (unique (map platform rows)) < 2")
    case True
    with assms Frame show ?thesis by (simp add: match_products_def Let_def)
  next
    case False
    with assms Frame obtain p1 p2 r1 r2 where "\<not> p2 \<le> p1" and "m \<in> set (match_pair p1 p2 thr r1 r2)"
      by (auto simp: match_products_def Let_def split: if_splits)
    then show ?thesis by (auto simp: not_le)
  qed
qed

lemma match_products_two_rows:
  assumes "platform a < platform b"
  shows "match_products (pd_DataFrame [a, b]) thr = Inr (match_pair (platform a) (platform b) thr a b)"
proof -
  from assms have ne: "platform a \<noteq> platform b" and nle: "\<not> platform b \<le> platform a"
    and le: "platform a \<le> platform b"
    by auto
  have u: "unique [platform a, platform b] = [platform a, platform b]"
    using ne by (simp add: unique_def)
  show ?thesis
    using ne nle le by (simp add: match_products_def pd_DataFrame_def u Let_def)
qed

lemma loaf_pair: "match_pair ''A'' ''B'' 75 loaf_a loaf_b = [loaf_match]"
proof -
  have s: "calculate_similarity ''White Bread'' ''White Bread'' ''400g'' ''400g'' = 100"
    by code_simp
  show ?thesis
    by (simp add: match_pair_def loaf_a_def loaf_b_def loaf_match_def s Let_def)
qed

lemma loaf_frame: "match_products (pd_DataFrame [loaf_a, loaf_b]) 75 = Inr [loaf_match]"
proof -
  have pa: "platform loaf_a = ''A''" and pb: "platform loaf_b = ''B''"
    by (simp_all add: loaf_a_def loaf_b_def)
  have "platform loaf_a < platform loaf_b" by (simp add: pa pb)
  from match_products_two_rows [OF this, of 75] show ?thesis
    by (simp only: pa pb loaf_pair)
qed

text \<open>
  C2, as the claim states it, fails: \<open>platform1 if price1 < price2 else platform2\<close> takes
  the else branch when the prices are equal, so a tie goes to platform2, the larger
  platform identifier.
\<close>

theorem cheaper_platform_tie_counterexample:
  "match_products (pd_DataFrame [loaf_a, loaf_b]) 75 = Inr [loaf_match]
   \<and> price1 loaf_match = price2 loaf_match
   \<and> platform1 loaf_match = ''A''
   \<and> cheaper_platform loaf_match = ''B''
   \<and> cheaper_platform loaf_match \<noteq> platform1 loaf_match"
  using loaf_frame by (simp add: loaf_match_def)

text \<open>
  C2 (amended): for every record that match_products emits, platform1 is the smaller
  platform identifier, and cheaper_platform is platform1 when price1 is strictly lower
  than price2 and platform2 otherwise: when price2 is strictly lower, and also when the
  prices are equal.
\<close>

theorem cheaper_platform_strictly_lower_else_platform2:
  assumes "match_products df threshold = Inr ms" and "m \<in> set ms"
  shows "platform1 m < platform2 m
         \<and> cheaper_platform m = (if price1 m < price2 m then platform1 m else platform2 m)"
proof -
  from match_products_member [OF assms] obtain p1 p2 r1 r2
    where lt: "p1 < p2" and m: "m \<in> set (match_pair p1 p2 threshold r1 r2)" by blast
  from match_pair_props [OF m] lt show ?thesis by simp
qed

theorem cheaper_platform_strictly_lower_else_platform2_witness:
  "match_products (pd_DataFrame [loaf_a, loaf_b]) 75 = Inr [loaf_match]
   \<and> loaf_match \<in> set [loaf_match]
   \<and> platform1 loaf_match < platform2 loaf_match
   \<and> cheaper_platform loaf_match = platform2 loaf_match"
proof -
  have i: "loaf_match \<in> set [loaf_match]" by simp
  have e: "price1 loaf_match = price2 loaf_match" by (simp add: loaf_match_def)
  from cheaper_platform_strictly_lower_else_platform2 [OF loaf_frame i] e loaf_frame i
  show ?thesis by simp
qed

text \<open>
  C7: every record that match_products emits has platform1 strictly below platform2 in
  the order of the platform identifiers, savings equal to price_diff, and a similarity
  that is at least the threshold.
\<close>

theorem match_record_invariants:
  assumes "match_products df threshold = Inr ms" and "m \<in> set ms"
  shows "platform1 m < platform2 m
         \<and> savings m = price_diff m
         \<and> threshold \<le> real_of_int (similarity m)"
proof -
  from match_products_member [OF assms] obtain p1 p2 r1 r2
    where lt: "p1 < p2" and m: "m \<in> set (match_pair p1 p2 threshold r1 r2)" by blast
  from match_pair_props [OF m] lt show ?thesis by simp
qed

theorem match_record_invariants_witness:
  "match_products (pd_DataFrame [loaf_a, loaf_b]) 75 = Inr [loaf_match]
   \<and> loaf_match \<in> set [loaf_match]
   \<and> platform1 loaf_match < platform2 loaf_match
   \<and> savings loaf_match = price_diff loaf_match
   \<and> (75::real) \<le> real_of_int (similarity loaf_match)"
proof -
  have i: "loaf_match \<in> set [loaf_match]" by simp
  from match_record_invariants [OF loaf_frame i] loaf_frame i
  show ?thesis by simp
qed

section \<open>The example of section 8\<close>

lemma edit_distance_refl: "edit_distance xs xs = 0"
  by (induction xs) auto

lemma edit_distance_prepend_le: "edit_distance xs (p @ xs) \<le> length p"
proof (induction p)
  case Nil
  then show ?case by (simp add: edit_distance_refl)
next
  case (Cons c p)
  show ?case
  proof (cases xs)
    case Nil
    then show ?thesis by simp
  next
    case (Cons x xs')
    have "edit_distance (x # xs') (c # p @ x # xs') \<le> edit_distance (x # xs') (p @ x # xs') + 1"
      by simp
    with Cons.IH Cons show ?thesis by simp
  qed
qed

lemma edit_distance_length: "length ys \<le> edit_distance xs ys + length xs"
  by (induction xs ys rule: edit_distance.induct) auto

lemma edit_distance_prepend: "edit_distance xs (p @ xs) = length p"
proof -
  have "length (p @ xs) \<le> edit_distance xs (p @ xs) + length xs"
    by (rule edit_distance_length)
  then have "length p \<le> edit_distance xs (p @ xs)" by simp
  with edit_distance_prepend_le [of xs p] show ?thesis by simp
qed

lemma fuzz_ratio_prepend:
  assumes "xs \<noteq> []" and "p \<noteq> []"
  shows "fuzz_ratio xs (p @ xs) =
           py_round (100 * (real (2 * length xs) / real (length p + 2 * length xs)))"
proof -
  have ne: "xs \<noteq> p @ xs" using assms(2) by simp
  have n: "length p + 2 * length xs - edit_distance xs (p @ xs) = 2 * length xs"
    by (simp add: edit_distance_prepend)
  have l: "length xs + length (p @ xs) = length p + 2 * length xs" by simp
  have "fuzz_ratio xs (p @ xs) =
          py_round (100 * (real (length xs + length (p @ xs) - edit_distance xs (p @ xs))
                           / real (length xs + length (p @ xs))))"
    using ne assms by (simp add: fuzz_ratio_def Let_def)
  then show ?thesis by (simp only: l n)
qed

lemma britannia_ratio:
  "fuzz_ratio ''bread britannia white'' ''400g bread britannia white'' = 89"
proof -
  have a: "''400g '' @ ''bread britannia white'' = ''400g bread britannia white''"
    by simp
  have "fuzz_ratio ''bread britannia white'' (''400g '' @ ''bread britannia white'') =
     py_round (100 * (real (2 * length ''bread britannia white'')
        / real (length ''400g '' + 2 * length ''bread britannia white'')))"
    by (rule fuzz_ratio_prepend) simp_all
  also have "\<dots> = 89"
    by (simp add: py_round_def)
  finally show ?thesis by (simp only: a)
qed

lemma britannia_similarity:
  "calculate_similarity ''Britannia White Bread'' ''Britannia White Bread 400g'' ''400g'' ''400g'' = 100"
proof -
  have p1: "process_and_sort (normalize_name ''Britannia White Bread'') = ''bread britannia white''"
    by code_simp
  have p2: "process_and_sort (normalize_name ''Britannia White Bread 400g'') = ''400g bread britannia white''"
    by code_simp
  show ?thesis
    by (simp add: calculate_similarity_def token_sort_ratio_def p1 p2 britannia_ratio)
qed

text \<open>
  C1: the two records of the example, whatever their other fields hold, give with
  threshold 75 exactly one match record; its cheaper_platform is B, its savings are 7,
  and its price_diff_pct is 140/9, which is 15.56 to two decimals. The names score 89 and
  the equal weights add 20, so the similarity is the cap of 100.
\<close>

theorem match_products_britannia_example:
  "\<exists>m. match_products (pd_DataFrame
          [r1\<lparr>name := ''Britannia White Bread'', weight_clean := ''400g'',
              price_numeric := 45, platform := ''A''\<rparr>,
           r2\<lparr>name := ''Britannia White Bread 400g'', weight_clean := ''400g'',
              price_numeric := 38, platform := ''B''\<rparr>]) 75 = Inr [m]
       \<and> m = \<lparr>product_name = ''Britannia White Bread'', match_brand = brand r1,
               match_weight = ''400g'', platform1 = ''A'', price1 = 45, platform2 = ''B'',
               price2 = 38, price_diff = 7, price_diff_pct = 140 / 9, similarity = 100,
               cheaper_platform = ''B'', savings = 7\<rparr>
       \<and> cheaper_platform m = ''B''
       \<and> savings m = 7
       \<and> \<bar>price_diff_pct m - 15.56\<bar> < 0.005"
proof -
  let ?a = "r1\<lparr>name := ''Britannia White Bread'', weight_clean := ''400g'',
              price_numeric := 45, platform := ''A''\<rparr>"
  let ?b = "r2\<lparr>name := ''Britannia White Bread 400g'', weight_clean := ''400g'',
              price_numeric := 38, platform := ''B''\<rparr>"
  have lt: "platform ?a < platform ?b" by simp
  have pair: "match_pair ''A'' ''B'' 75 ?a ?b =
      [\<lparr>product_name = ''Britannia White Bread'', match_brand = brand r1,
               match_weight = ''400g'', platform1 = ''A'', price1 = 45, platform2 = ''B'',
               price2 = 38, price_diff = 7, price_diff_pct = 140 / 9, similarity = 100,
               cheaper_platform = ''B'', savings = 7\<rparr>]"
    by (simp add: match_pair_def britannia_similarity Let_def)
  have "match_products (pd_DataFrame [?a, ?b]) 75 = Inr (match_pair (platform ?a) (platform ?b) 75 ?a ?b)"
    using lt by (rule match_products_two_rows)
  then have "match_products (pd_DataFrame [?a, ?b]) 75 = Inr (match_pair ''A'' ''B'' 75 ?a ?b)"
    by simp
  then show ?thesis
    by (simp add: pair)
qed

section \<open>Properties of calculate_statistics\<close>

text \<open>
  C3, as the claim states it, fails: the frame that \<open>pd.DataFrame\<close> builds from an empty
  list of records has no columns, and reading \<open>df['platform']\<close> raises KeyError. app.py
  answers with an error before it builds the frame when nothing was scraped.
\<close>

theorem calculate_statistics_no_columns_counterexample:
  "calculate_statistics (pd_DataFrame []) = Inl (KeyError ''platform'')"
  by (simp add: calculate_statistics_def pd_DataFrame_def)

text \<open>
  C3 (amended): on a frame that has its columns, calculate_statistics raises nothing and
  returns total_products equal to the number of rows; with fewer than two rows the
  standard deviation is NaN, and with no rows total_products is 0 and mean, median,
  minimum, maximum and standard deviation are all NaN.
\<close>

theorem calculate_statistics_few_rows:
  "\<exists>st. calculate_statistics (Frame rows) = Inr st
        \<and> total_products st = length rows
        \<and> (length rows < 2 \<longrightarrow> price_std st = None)
        \<and> (rows = [] \<longrightarrow> total_products st = 0 \<and> total_platforms st = 0 \<and> total_brands st = 0
              \<and> avg_price st = None \<and> median_price st = None
              \<and> min_price st = None \<and> max_price st = None \<and> price_std st = None)"
  by (simp add: calculate_statistics_def series_std_def series_mean_def series_median_def
      series_min_def series_max_def nunique_def)

theorem calculate_statistics_few_rows_witness:
  "length ([] :: Product list) < 2 \<and> ([] :: Product list) = []
   \<and> (\<exists>st. calculate_statistics (Frame []) = Inr st
         \<and> total_products st = 0 \<and> avg_price st = None \<and> price_std st = None)"
  using calculate_statistics_few_rows [of "[]"] by auto

section \<open>Properties of clean_weight\<close>



























end
